theory Spec2Isabelle
  imports Complex_Main "HOL-Library.Sublist" "HOL-Library.Char_ord" "HOL-Library.List_Lexorder"
begin

section \<open>Strings\<close>

text \<open>
  Signatures are Python strings. \<open>str.upper\<close> is modelled on the ASCII letters, which is
  where it acts on alert signatures; every other character is left as it is. The
  substring test \<open>needle in text\<close> is \<open>str_in\<close>: some suffix of the text starts with the
  needle, and the empty needle is in every text.
\<close>

definition char_upper :: "char \<Rightarrow> char" where
  "char_upper c =
     (case map_of (zip ''abcdefghijklmnopqrstuvwxyz'' ''ABCDEFGHIJKLMNOPQRSTUVWXYZ'') c of
        Some u \<Rightarrow> u
      | None \<Rightarrow> c)"

definition upper :: "string \<Rightarrow> string" where
  "upper s = map char_upper s"

fun str_in :: "string \<Rightarrow> string \<Rightarrow> bool" where
  "str_in needle [] = (needle = [])"
| "str_in needle (c # cs) = (prefix needle (c # cs) \<or> str_in needle cs)"

section \<open>Threat classifier\<close>

text \<open>
  \<open>extract_detailed_threat_category\<close>: the signature is uppercased once, then the
  \<open>if\<close>/\<open>elif\<close> chain of the source is followed branch by branch, the nested chain of
  each branch choosing the detailed category.
\<close>

definition extract_detailed_threat_category :: "string \<Rightarrow> string \<times> string" where
  "extract_detailed_threat_category signature =
     (let sig = upper signature in
      if str_in ''MALWARE-CNC'' sig then
        (''MALWARE'',
         if str_in ''WIN.TROJAN'' sig then ''Trojan/Win.Jadtre''
         else if str_in ''USER-AGENT'' sig then ''C&C Communication''
         else ''Malware Activity'')
      else if str_in ''EXPLOIT'' sig then
        (''EXPLOIT'',
         if str_in ''WIN32K'' sig then ''Privilege Escalation (Win32k)''
         else if str_in ''JAVA JRE'' sig \<or> str_in ''WEBLOGIC'' sig
           then ''Remote Code Execution (Java)''
         else if str_in ''ORACLE 9I'' sig then ''Buffer Overflow (Oracle)''
         else if str_in ''IIS'' sig then ''Web Server Exploit''
         else ''Generic Exploit'')
      else if str_in ''NETBIOS'' sig then
        (''NETWORK'',
         if str_in ''DCERPC'' sig then ''RPC Service Exploit''
         else if str_in ''SMB-DS'' sig then ''SMB Service Exploit''
         else ''Network Protocol Anomaly'')
      else if str_in ''INDICATOR-COMPROMISE'' sig then
        (''INDICATOR'',
         if str_in ''MYSQL'' sig then ''Database Reconnaissance''
         else ''Suspicious Activity'')
      else if str_in ''RCE'' sig then (''EXPLOIT'', ''Remote Code Execution'')
      else if str_in ''PRIVILEGE'' sig \<or> str_in ''ELEVATION'' sig
        then (''EXPLOIT'', ''Privilege Escalation'')
      else if str_in ''BUFFER'' sig \<or> str_in ''BO'' sig \<or> str_in ''OVERFLOW'' sig
        then (''EXPLOIT'', ''Buffer Overflow'')
      else (''OTHER'', ''Uncategorized''))"

text \<open>
  The keywords that open a branch of the chain, in the order the chain tests them, and
  the ordered rule list they form: each rule is the keywords of one test (any of them
  suffices) with the main category of its branch.
\<close>

definition main_keywords :: "string list" where
  "main_keywords =
     [''MALWARE-CNC'', ''EXPLOIT'', ''NETBIOS'', ''INDICATOR-COMPROMISE'', ''RCE'',
      ''PRIVILEGE'', ''ELEVATION'', ''BUFFER'', ''BO'', ''OVERFLOW'']"

definition main_rules :: "(string list \<times> string) list" where
  "main_rules =
     [([''MALWARE-CNC''], ''MALWARE''),
      ([''EXPLOIT''], ''EXPLOIT''),
      ([''NETBIOS''], ''NETWORK''),
      ([''INDICATOR-COMPROMISE''], ''INDICATOR''),
      ([''RCE''], ''EXPLOIT''),
      ([''PRIVILEGE'', ''ELEVATION''], ''EXPLOIT''),
      ([''BUFFER'', ''BO'', ''OVERFLOW''], ''EXPLOIT'')]"

fun first_match :: "(string list \<times> string) list \<Rightarrow> string \<Rightarrow> string" where
  "first_match [] sig = ''OTHER''"
| "first_match ((keys, cat) # rules) sig =
     (if list_ex (\<lambda>k. str_in k sig) keys then cat else first_match rules sig)"

section \<open>Cyclic pattern detector\<close>

text \<open>
  The search of \<open>analyze_temporal_patterns\<close> for repeated windows of signatures. Window
  lengths and indices are natural numbers; \<open>range(n)\<close> with a negative \<open>n\<close> is
  empty, as \<open>[0..<n]\<close> is under truncating subtraction. A Python slice
  \<open>xs[a:b]\<close> with \<open>0 \<le> a \<le> b\<close> stops at the end of the list, as \<open>take\<close> and
  \<open>drop\<close> do.
\<close>

definition slice :: "'a list \<Rightarrow> nat \<Rightarrow> nat \<Rightarrow> 'a list" where
  "slice xs a b = take (b - a) (drop a xs)"

text \<open>
  The inner loop \<open>for k in range(2, 10)\<close>: it leaves at the first window that would
  run past the end or differs from the pattern, and counts the others.
\<close>

fun extend_repetitions :: "'a list \<Rightarrow> nat \<Rightarrow> nat \<Rightarrow> 'a list \<Rightarrow> nat list \<Rightarrow> nat \<Rightarrow> nat" where
  "extend_repetitions signatures_list i pattern_length pattern [] repetitions = repetitions"
| "extend_repetitions signatures_list i pattern_length pattern (k # ks) repetitions =
     (let check_start = i + pattern_length * k in
      if check_start + pattern_length > length signatures_list then repetitions
      else if slice signatures_list check_start (check_start + pattern_length) = pattern
        then extend_repetitions signatures_list i pattern_length pattern ks (repetitions + 1)
      else repetitions)"

definition repetition_checks :: "nat list" where
  "repetition_checks = [2..<10]"

text \<open>
  The loop over the start indices: the first index whose window equals the next one is
  reported with its pattern and repetition count, and the scan of this length stops
  there (the \<open>break\<close>).
\<close>

fun scan_starts :: "'a list \<Rightarrow> nat \<Rightarrow> nat list \<Rightarrow> (nat \<times> 'a list \<times> nat) option" where
  "scan_starts signatures_list pattern_length [] = None"
| "scan_starts signatures_list pattern_length (i # starts) =
     (let pattern = slice signatures_list i (i + pattern_length);
          next_pattern = slice signatures_list (i + pattern_length) (i + pattern_length * 2)
      in if pattern = next_pattern
         then Some (i, pattern,
                    extend_repetitions signatures_list i pattern_length pattern repetition_checks 1)
         else scan_starts signatures_list pattern_length starts)"

definition find_pattern :: "'a list \<Rightarrow> nat \<Rightarrow> (nat \<times> 'a list \<times> nat) option" where
  "find_pattern signatures_list pattern_length =
     scan_starts signatures_list pattern_length
       [0..<length signatures_list - pattern_length * 2]"

text \<open>
  What the loop over the window lengths prints: the heading of each length, a found
  pattern with its start index, the repetition line when the count exceeds 1, and the
  line saying that no pattern of this length was found. The flag \<open>patterns_found\<close> is
  set to False once, before the loop over the lengths, and only ever set to True.
\<close>

datatype 'a line = Checking nat | Found nat "'a list" | Repeats nat | NotFound nat

fun check_lengths :: "'a list \<Rightarrow> nat list \<Rightarrow> bool \<Rightarrow> 'a line list" where
  "check_lengths signatures_list [] patterns_found = []"
| "check_lengths signatures_list (pattern_length # rest) patterns_found =
     (case find_pattern signatures_list pattern_length of
        Some (i, pattern, repetitions) \<Rightarrow>
          [Checking pattern_length, Found i pattern]
          @ (if repetitions > 1 then [Repeats repetitions] else [])
          @ check_lengths signatures_list rest True
      | None \<Rightarrow>
          [Checking pattern_length]
          @ (if \<not> patterns_found then [NotFound pattern_length] else [])
          @ check_lengths signatures_list rest patterns_found)"

definition pattern_lengths_to_check :: "nat list" where
  "pattern_lengths_to_check = [3, 5, 8]"

definition cyclic_patterns :: "'a list \<Rightarrow> nat list \<Rightarrow> 'a line list" where
  "cyclic_patterns signatures_list lengths = check_lengths signatures_list lengths False"


text \<open>The \<open>k\<close>-th window after the start fits in the list and equals the pattern.\<close>

definition window_ok :: "'a list \<Rightarrow> nat \<Rightarrow> nat \<Rightarrow> 'a list \<Rightarrow> nat \<Rightarrow> bool" where
  "window_ok signatures_list i pattern_length pattern k \<longleftrightarrow>
     i + pattern_length * k + pattern_length \<le> length signatures_list
     \<and> slice signatures_list (i + pattern_length * k) (i + pattern_length * k + pattern_length) = pattern"


section \<open>Events and temporal aggregation\<close>

text \<open>
  A row of the data frame after loading: the signature and the timestamp, \<open>None\<close> being
  the missing timestamp (NaT) that an unparsable value is coerced to. A timestamp is the
  number of seconds since the epoch; the columns \<open>hour\<close> and \<open>date\<close> are derived from
  it at loading, the date being the day number, whose order is the order of the dates
  and of their ISO strings. Both are missing where the timestamp is.
\<close>

datatype error = ValueError | KeyError | ZeroDivisionError

record event =
  signature :: string
  timestamp :: "int option"

definition hour_of :: "int \<Rightarrow> nat" where
  "hour_of t = nat ((t div 3600) mod 24)"

definition date_of :: "int \<Rightarrow> int" where
  "date_of t = t div 86400"

definition hour :: "event \<Rightarrow> nat option" where
  "hour e = map_option hour_of (timestamp e)"

definition date :: "event \<Rightarrow> int option" where
  "date e = map_option date_of (timestamp e)"

text \<open>
  A column is a list of optional values. \<open>value_counts().sort_index()\<close> drops the
  missing values and gives, for each distinct value in ascending order, the number of
  its occurrences. \<open>idxmax\<close> is the label of the first maximum in that order and
  raises ValueError on an empty series; \<open>mean\<close> of an empty series is not a number,
  here \<open>None\<close>, and the quotient is kept exact.
\<close>

fun dropna :: "'a option list \<Rightarrow> 'a list" where
  "dropna [] = []"
| "dropna (None # xs) = dropna xs"
| "dropna (Some v # xs) = v # dropna xs"

definition value_counts_sort_index :: "'a::linorder option list \<Rightarrow> ('a \<times> nat) list" where
  "value_counts_sort_index col =
     (let vals = dropna col in map (\<lambda>k. (k, count_list vals k)) (sort (remdups vals)))"

fun idxmax_from :: "'a \<times> nat \<Rightarrow> ('a \<times> nat) list \<Rightarrow> 'a" where
  "idxmax_from best [] = fst best"
| "idxmax_from best (x # xs) = (if snd x > snd best then idxmax_from x xs else idxmax_from best xs)"

definition idxmax :: "('a \<times> nat) list \<Rightarrow> error + 'a" where
  "idxmax series = (case series of [] \<Rightarrow> Inl ValueError | x # xs \<Rightarrow> Inr (idxmax_from x xs))"

definition series_mean :: "('a \<times> nat) list \<Rightarrow> rat option" where
  "series_mean series =
     (if series = [] then None
      else Some (of_nat (sum_list (map snd series)) / of_nat (length series)))"

definition hourly_counts :: "event list \<Rightarrow> (nat \<times> nat) list" where
  "hourly_counts df = value_counts_sort_index (map hour df)"

definition daily_counts :: "event list \<Rightarrow> (int \<times> nat) list" where
  "daily_counts df = value_counts_sort_index (map date df)"

definition most_active_hour :: "event list \<Rightarrow> error + nat" where
  "most_active_hour df = idxmax (hourly_counts df)"

definition avg_events_per_day :: "event list \<Rightarrow> rat option" where
  "avg_events_per_day df = series_mean (daily_counts df)"

text \<open>
  The pivot table of the heat map, \<open>pivot_table(index='date_str', columns='hour',
  values='signature', aggfunc='count', fill_value=0)\<close>: the rows whose hour is missing
  are dropped by the grouping, the others carry the date and the hour of their
  timestamp, and a signature, which the count requires; the labels are the distinct
  dates and the distinct hours that occur, in ascending order, and a cell is the number
  of rows of its date and hour.
\<close>

record pivot =
  pt_index :: "int list"
  pt_columns :: "nat list"
  pt_values :: "nat list list"

definition pivot_keys :: "event list \<Rightarrow> (int \<times> nat) list" where
  "pivot_keys df = map (\<lambda>t. (date_of t, hour_of t)) (dropna (map timestamp df))"

definition heatmap_data :: "event list \<Rightarrow> pivot" where
  "heatmap_data df =
     (let keys = pivot_keys df;
          idx = sort (remdups (map fst keys));
          cols = sort (remdups (map snd keys))
      in \<lparr>pt_index = idx, pt_columns = cols,
          pt_values = map (\<lambda>d. map (\<lambda>h. count_list keys (d, h)) cols) idx\<rparr>)"


section \<open>Summary statistics\<close>

text \<open>
  The data frame with the columns it has: a frame built from an empty event list has no
  column at all. The column \<open>threat_main_category\<close> is added by the signature analysis,
  which runs before the export exactly when the column \<open>signature\<close> exists.
\<close>

record frame =
  has_signature :: bool
  has_timestamp :: bool
  events :: "event list"

datatype cell = IntV int | RatV rat | StrV string | TimeV int | NA

record temporal_report =
  rep_hourly_counts :: "(nat \<times> nat) list"
  rep_most_active_hour :: nat
  rep_daily_counts :: "(int \<times> nat) list"
  rep_avg_events_per_day :: "rat option"
  rep_patterns :: "string line list"

text \<open>
  \<open>analyze_temporal_patterns\<close> returns at once without the column \<open>timestamp\<close>;
  otherwise an exception of \<open>idxmax\<close> or of the read of the column \<open>signature\<close> leaves
  the function, nothing in it catching any.
\<close>

definition analyze_temporal_patterns :: "frame \<Rightarrow> error + temporal_report option" where
  "analyze_temporal_patterns f =
     (if \<not> has_timestamp f then Inr None
      else case most_active_hour (events f) of
        Inl e \<Rightarrow> Inl e
      | Inr h \<Rightarrow>
          if \<not> has_signature f then Inl KeyError
          else Inr (Some \<lparr>rep_hourly_counts = hourly_counts (events f),
                          rep_most_active_hour = h,
                          rep_daily_counts = daily_counts (events f),
                          rep_avg_events_per_day = avg_events_per_day (events f),
                          rep_patterns =
                            cyclic_patterns (map signature (events f)) pattern_lengths_to_check\<rparr>))"

text \<open>
  The pieces of the summary: \<open>nunique\<close> counts the distinct present values,
  \<open>min\<close> and \<open>max\<close> of a column with no present value are the missing timestamp,
  whose \<open>strftime\<close> raises ValueError, and \<open>mode()[0]\<close> is the smallest of the most
  frequent values and raises KeyError when the column has no present value.
\<close>

definition nunique :: "'a option list \<Rightarrow> nat" where
  "nunique col = length (remdups (dropna col))"

definition col_min :: "int option list \<Rightarrow> int option" where
  "col_min col = (case dropna col of [] \<Rightarrow> None | x # xs \<Rightarrow> Some (fold min xs x))"

definition col_max :: "int option list \<Rightarrow> int option" where
  "col_max col = (case dropna col of [] \<Rightarrow> None | x # xs \<Rightarrow> Some (fold max xs x))"

definition strftime :: "int option \<Rightarrow> error + cell" where
  "strftime t = (case t of None \<Rightarrow> Inl ValueError | Some s \<Rightarrow> Inr (TimeV (s div 60)))"

definition mode0 :: "'a::linorder option list \<Rightarrow> error + 'a" where
  "mode0 col =
     (case value_counts_sort_index col of
        [] \<Rightarrow> Inl KeyError
      | x # xs \<Rightarrow> Inr (idxmax_from x xs))"

definition as_cell :: "('a \<Rightarrow> cell) \<Rightarrow> error + 'a \<Rightarrow> error + cell" where
  "as_cell c r = (case r of Inl e \<Rightarrow> Inl e | Inr v \<Rightarrow> Inr (c v))"

text \<open>
  The elements of a list display are evaluated from left to right, and the first
  exception ends the evaluation.
\<close>

fun in_order :: "(error + 'a) list \<Rightarrow> error + 'a list" where
  "in_order [] = Inr []"
| "in_order (Inl e # rest) = Inl e"
| "in_order (Inr v # rest) = (case in_order rest of Inl e \<Rightarrow> Inl e | Inr vs \<Rightarrow> Inr (v # vs))"

text \<open>
  The ten values of \<open>summary_stats\<close> in the order of the source: the reads of the column
  \<open>signature\<close> in the second and the last value are not guarded, the others fall back
  to N/A when their column does not exist.
\<close>

definition summary_values :: "frame \<Rightarrow> error + cell list" where
  "summary_values f =
     (let df = events f;
          signatures = map (Some \<circ> signature) df;
          categories = map (Some \<circ> fst \<circ> extract_detailed_threat_category \<circ> signature) df
      in in_order
        [Inr (IntV (int (length df))),
         if has_signature f then Inr (IntV (int (nunique signatures))) else Inl KeyError,
         if has_timestamp f then strftime (col_min (map timestamp df)) else Inr NA,
         if has_timestamp f then strftime (col_max (map timestamp df)) else Inr NA,
         if has_timestamp f then as_cell (IntV \<circ> int) (mode0 (map hour df)) else Inr NA,
         if has_timestamp f then Inr (RatV (of_nat (length df) / 24)) else Inr NA,
         if has_timestamp f then Inr (IntV (int (nunique (map date df)))) else Inr NA,
         if has_signature f then as_cell StrV (mode0 categories) else Inr NA,
         if has_signature f then as_cell StrV (mode0 signatures) else Inr NA,
         if \<not> has_signature f then Inl KeyError
         else if length df = 0 then Inl ZeroDivisionError
         else Inr (RatV (of_nat (nunique signatures) / of_nat (length df)))])"

text \<open>
  \<open>export_results\<close> wraps the summary in \<open>try\<close>/\<open>except Exception\<close>: on an
  exception it prints the error and writes no summary (\<open>None\<close>).
\<close>

definition export_results :: "frame \<Rightarrow> cell list option" where
  "export_results f = (case summary_values f of Inl e \<Rightarrow> None | Inr vs \<Rightarrow> Some vs)"

section \<open>Properties of the strings\<close>

lemma str_in_sublist: "str_in n h \<longleftrightarrow> sublist n h"
  by (induction h) (auto simp: sublist_Cons_right)

lemma upper_append: "upper (xs @ ys) = upper xs @ upper ys"
  by (simp add: upper_def)

text \<open>
  The test on the uppercased text is the case-insensitive test on the signature itself:
  the keyword is in the uppercased text exactly when some piece of the signature
  uppercases to it.
\<close>

lemma str_in_upper_iff:
  "str_in k (upper s) \<longleftrightarrow> (\<exists>w. sublist w s \<and> upper w = k)"
proof
  assume "str_in k (upper s)"
  then obtain ps ss where eq: "map char_upper s = ps @ k @ ss"
    by (auto simp: str_in_sublist sublist_def upper_def)
  then have "\<exists>a r. s = a @ r \<and> ps = map char_upper a \<and> k @ ss = map char_upper r"
    by (simp add: map_eq_append_conv)
  then obtain a r where s1: "s = a @ r" and r: "k @ ss = map char_upper r"
    by blast
  from r have "\<exists>w b. r = w @ b \<and> k = map char_upper w \<and> ss = map char_upper b"
    by (simp add: append_eq_map_conv)
  then obtain w b where "r = w @ b" and w: "map char_upper w = k"
    by auto
  with s1 have "sublist w s" by (auto simp: sublist_def)
  with w show "\<exists>w. sublist w s \<and> upper w = k" by (auto simp: upper_def)
next
  assume "\<exists>w. sublist w s \<and> upper w = k"
  then obtain w ps ss where "s = ps @ w @ ss" and "upper w = k"
    by (auto simp: sublist_def)
  then have "upper s = upper ps @ k @ upper ss" by (simp add: upper_append)
  then show "str_in k (upper s)" by (auto simp: str_in_sublist sublist_def)
qed

section \<open>Properties of the classifier\<close>

text \<open>The main category is the category of the first rule of the list that matches.\<close>

lemma main_category_first_match:
  "fst (extract_detailed_threat_category sg) = first_match main_rules (upper sg)"
  by (simp add: extract_detailed_threat_category_def main_rules_def Let_def)

text \<open>The fallback is returned only when no keyword matches.\<close>

lemma other_only_unmatched:
  "extract_detailed_threat_category sg = (''OTHER'', ''Uncategorized'') \<longleftrightarrow>
     (\<forall>k \<in> set main_keywords. \<not> str_in k (upper sg))"
  by (simp add: extract_detailed_threat_category_def main_keywords_def Let_def)

text \<open>
  Claim C3. A signature whose uppercased text contains none of the keywords of the chain
  is classified as OTHER / Uncategorized. The classifier is a function defined on every
  string, with no failing branch: each call returns a pair, and equal signatures give
  equal pairs.
\<close>

theorem classify_unmatched:
  assumes "\<forall>k \<in> set main_keywords. \<not> str_in k (upper sg)"
  shows "extract_detailed_threat_category sg = (''OTHER'', ''Uncategorized'')"
  using assms by (simp add: extract_detailed_threat_category_def main_keywords_def Let_def)

theorem classify_unmatched_witness:
  "list_all (\<lambda>k. \<not> str_in k (upper ''ICMP Ping Sweep'')) main_keywords
   \<and> extract_detailed_threat_category ''ICMP Ping Sweep'' = (''OTHER'', ''Uncategorized'')"
proof -
  have h: "\<forall>k \<in> set main_keywords. \<not> str_in k (upper ''ICMP Ping Sweep'')"
    by (simp add: main_keywords_def upper_def char_upper_def)
  from h classify_unmatched [OF h] show ?thesis by (simp add: list_all_iff)
qed

text \<open>
  Claim C4, as the claim states it, fails where a rule earlier than both decides: a
  signature with MALWARE-CNC, EXPLOIT and RCE is classified by the MALWARE-CNC branch.
\<close>

theorem exploit_rce_counterexample:
  "str_in ''EXPLOIT'' (upper ''MALWARE-CNC exploit kit RCE attempt'')
   \<and> str_in ''RCE'' (upper ''MALWARE-CNC exploit kit RCE attempt'')
   \<and> extract_detailed_threat_category ''MALWARE-CNC exploit kit RCE attempt''
       = (''MALWARE'', ''Malware Activity'')
   \<and> fst (extract_detailed_threat_category ''MALWARE-CNC exploit kit RCE attempt'')
       \<noteq> ''EXPLOIT''"
  by (simp add: extract_detailed_threat_category_def upper_def char_upper_def)

text \<open>
  Claim C4, amended. For a signature whose uppercased text contains both EXPLOIT and RCE:
  without MALWARE-CNC the EXPLOIT branch decides, the detailed category being the one its
  nested chain chooses; with MALWARE-CNC the main category is MALWARE; and in neither
  case is the result the one of the RCE rule.
\<close>

theorem exploit_before_rce:
  assumes "str_in ''EXPLOIT'' (upper sg)" and "str_in ''RCE'' (upper sg)"
  shows "(\<not> str_in ''MALWARE-CNC'' (upper sg) \<longrightarrow>
            extract_detailed_threat_category sg =
              (''EXPLOIT'',
               if str_in ''WIN32K'' (upper sg) then ''Privilege Escalation (Win32k)''
               else if str_in ''JAVA JRE'' (upper sg) \<or> str_in ''WEBLOGIC'' (upper sg)
                 then ''Remote Code Execution (Java)''
               else if str_in ''ORACLE 9I'' (upper sg) then ''Buffer Overflow (Oracle)''
               else if str_in ''IIS'' (upper sg) then ''Web Server Exploit''
               else ''Generic Exploit''))
       \<and> (str_in ''MALWARE-CNC'' (upper sg) \<longrightarrow>
            fst (extract_detailed_threat_category sg) = ''MALWARE'')
       \<and> extract_detailed_threat_category sg \<noteq> (''EXPLOIT'', ''Remote Code Execution'')"
  using assms by (simp add: extract_detailed_threat_category_def Let_def)

theorem exploit_before_rce_witness:
  "str_in ''EXPLOIT'' (upper ''EXPLOIT-KIT IIS RCE attempt'')
   \<and> str_in ''RCE'' (upper ''EXPLOIT-KIT IIS RCE attempt'')
   \<and> \<not> str_in ''MALWARE-CNC'' (upper ''EXPLOIT-KIT IIS RCE attempt'')
   \<and> extract_detailed_threat_category ''EXPLOIT-KIT IIS RCE attempt''
       = (''EXPLOIT'', ''Web Server Exploit'')"
proof -
  have e: "str_in ''EXPLOIT'' (upper ''EXPLOIT-KIT IIS RCE attempt'')"
    by (simp add: upper_def char_upper_def)
  have r: "str_in ''RCE'' (upper ''EXPLOIT-KIT IIS RCE attempt'')"
    by (simp add: upper_def char_upper_def)
  have m: "\<not> str_in ''MALWARE-CNC'' (upper ''EXPLOIT-KIT IIS RCE attempt'')"
    by (simp add: upper_def char_upper_def)
  have u: "upper ''EXPLOIT-KIT IIS RCE attempt'' = ''EXPLOIT-KIT IIS RCE ATTEMPT''"
    by (simp add: upper_def char_upper_def)
  from exploit_before_rce [OF e r] m
  have "extract_detailed_threat_category ''EXPLOIT-KIT IIS RCE attempt''
       = (''EXPLOIT'', ''Web Server Exploit'')"
    unfolding u by simp
  with e r m show ?thesis by blast
qed

text \<open>
  Claim C10. A signature whose uppercased text contains the two characters BO, wherever
  they stand, and none of the keywords tested before them (MALWARE-CNC, EXPLOIT, NETBIOS,
  INDICATOR-COMPROMISE, RCE, PRIVILEGE, ELEVATION) is classified as EXPLOIT / Buffer
  Overflow, not as OTHER / Uncategorized.
\<close>

theorem bo_substring_buffer_overflow:
  assumes "str_in ''BO'' (upper sg)"
    and "\<forall>k \<in> set (take 7 main_keywords). \<not> str_in k (upper sg)"
  shows "extract_detailed_threat_category sg = (''EXPLOIT'', ''Buffer Overflow'')
         \<and> extract_detailed_threat_category sg \<noteq> (''OTHER'', ''Uncategorized'')"
  using assms by (simp add: extract_detailed_threat_category_def main_keywords_def Let_def)

theorem bo_substring_buffer_overflow_witness:
  "str_in ''BO'' (upper ''Robot crawler detected'')
   \<and> list_all (\<lambda>k. \<not> str_in k (upper ''Robot crawler detected'')) (take 7 main_keywords)
   \<and> extract_detailed_threat_category ''Robot crawler detected''
       = (''EXPLOIT'', ''Buffer Overflow'')"
proof -
  have b: "str_in ''BO'' (upper ''Robot crawler detected'')"
    by (simp add: upper_def char_upper_def)
  have n: "\<forall>k \<in> set (take 7 main_keywords). \<not> str_in k (upper ''Robot crawler detected'')"
    by (simp add: main_keywords_def upper_def char_upper_def)
  from b n bo_substring_buffer_overflow [OF b n] show ?thesis by (simp add: list_all_iff)
qed

section \<open>Properties of the cyclic pattern detector\<close>

text \<open>The repetition count adds, to its start value, the leading checks that succeed.\<close>

lemma extend_repetitions_takeWhile:
  "extend_repetitions s i l p ks r = r + length (takeWhile (window_ok s i l p) ks)"
  by (induction ks arbitrary: r) (auto simp: window_ok_def Let_def)

lemma scan_starts_None_iff:
  "scan_starts s l starts = None \<longleftrightarrow>
     (\<forall>i \<in> set starts. slice s i (i + l) \<noteq> slice s (i + l) (i + l * 2))"
  by (induction starts) (auto simp: Let_def)

lemma scan_starts_Some:
  assumes "scan_starts s l starts = Some (i, p, r)"
  shows "\<exists>pre post. starts = pre @ i # post
           \<and> (\<forall>j \<in> set pre. slice s j (j + l) \<noteq> slice s (j + l) (j + l * 2))
           \<and> p = slice s i (i + l) \<and> p = slice s (i + l) (i + l * 2)
           \<and> r = extend_repetitions s i l p repetition_checks 1"
  using assms
proof (induction starts)
  case Nil
  then show ?case by simp
next
  case (Cons a starts)
  show ?case
  proof (cases "slice s a (a + l) = slice s (a + l) (a + l * 2)")
    case True
    with Cons.prems have "i = a" "p = slice s a (a + l)"
      "r = extend_repetitions s a l (slice s a (a + l)) repetition_checks 1"
      by (auto simp: Let_def)
    with True show ?thesis by (intro exI [of _ "[]"] exI [of _ starts]) simp
  next
    case False
    with Cons.prems have "scan_starts s l starts = Some (i, p, r)" by (simp add: Let_def)
    from Cons.IH [OF this] obtain pre post where
      "starts = pre @ i # post"
      "\<forall>j \<in> set pre. slice s j (j + l) \<noteq> slice s (j + l) (j + l * 2)"
      "p = slice s i (i + l)" "p = slice s (i + l) (i + l * 2)"
      "r = extend_repetitions s i l p repetition_checks 1" by blast
    with False show ?thesis
      by (intro exI [of _ "a # pre"] exI [of _ post]) simp
  qed
qed

lemma upt_split_at:
  assumes "[0..<n] = pre @ i # post"
  shows "i < n \<and> pre = [0..<i]"
proof -
  have len: "length pre < n" using arg_cong [OF assms, of length] by simp
  have "i = [0..<n] ! length pre" by (simp add: assms)
  with len have i: "i = length pre" by simp
  have "pre = take (length pre) [0..<n]" by (simp add: assms)
  also have "\<dots> = [0..<length pre]" using len by (simp add: take_upt)
  finally show ?thesis using i len by simp
qed

lemma find_pattern_None_iff:
  "find_pattern s l = None \<longleftrightarrow>
     (\<forall>i < length s - l * 2. slice s i (i + l) \<noteq> slice s (i + l) (i + l * 2))"
  by (auto simp: find_pattern_def scan_starts_None_iff)

lemma find_pattern_Some:
  assumes "find_pattern s l = Some (i, p, r)"
  shows "i < length s - l * 2
         \<and> (\<forall>j < i. slice s j (j + l) \<noteq> slice s (j + l) (j + l * 2))
         \<and> p = slice s i (i + l) \<and> p = slice s (i + l) (i + l * 2)
         \<and> r = 1 + length (takeWhile (window_ok s i l p) repetition_checks)"
proof -
  from assms obtain pre post where
    sp: "[0..<length s - l * 2] = pre @ i # post"
    and d: "\<forall>j \<in> set pre. slice s j (j + l) \<noteq> slice s (j + l) (j + l * 2)"
    and p: "p = slice s i (i + l)" "p = slice s (i + l) (i + l * 2)"
    and r: "r = extend_repetitions s i l p repetition_checks 1"
    unfolding find_pattern_def by (blast dest: scan_starts_Some)
  from upt_split_at [OF sp] have "i < length s - l * 2" "pre = [0..<i]" by simp_all
  with d p r show ?thesis by (simp add: extend_repetitions_takeWhile)
qed

lemma repetitions_bounds:
  assumes "find_pattern s l = Some (i, p, r)"
  shows "1 \<le> r \<and> r \<le> 9"
proof -
  have "length (takeWhile (window_ok s i l p) repetition_checks) \<le> length repetition_checks"
    by (rule length_takeWhile_le)
  moreover have "length repetition_checks = 8" by (simp add: repetition_checks_def)
  ultimately show ?thesis using find_pattern_Some [OF assms] by simp
qed


text \<open>
  Claim C1. The scan stops one start index short of the last one: the start index
  \<open>len - 2*l\<close>, whose two windows end exactly at the end of the sequence, is never
  tried. On A B A B with window length 2, and on A B C A B C with the configured length
  3, the two windows are equal and nothing is found.
\<close>

theorem scan_skips_last_start:
  "slice [''A'', ''B'', ''A'', ''B''] 0 2 = slice [''A'', ''B'', ''A'', ''B''] 2 4
   \<and> find_pattern [''A'', ''B'', ''A'', ''B''] 2 = None
   \<and> slice [''A'', ''B'', ''C'', ''A'', ''B'', ''C''] 0 3
       = slice [''A'', ''B'', ''C'', ''A'', ''B'', ''C''] 3 6
   \<and> find_pattern [''A'', ''B'', ''C'', ''A'', ''B'', ''C''] 3 = None"
  by (simp add: find_pattern_def slice_def)

text \<open>
  Claim C2. On A B A B A B with window length 2 the match is at index 0 with repetition
  count 2. The checks run over \<open>k = 2, \<dots>, 9\<close>, eight of them, so the count never
  exceeds 9: on eleven windows A B, where ten equal windows follow the first, the count
  is 9.
\<close>

theorem repetition_count_stops_at_nine:
  "find_pattern [''A'', ''B'', ''A'', ''B'', ''A'', ''B''] 2 = Some (0, [''A'', ''B''], 2)
   \<and> list_all (window_ok (concat (replicate 11 [''A'', ''B''])) 0 2 [''A'', ''B'']) [1..<11]
   \<and> find_pattern (concat (replicate 11 [''A'', ''B''])) 2 = Some (0, [''A'', ''B''], 9)"
  by (simp add: find_pattern_def repetition_checks_def window_ok_def slice_def
      upt_conv_Cons eval_nat_numeral)

text \<open>
  Claim C5. The search of one length does not use the others, but the report does:
  once a pattern of an earlier length was found, the line saying that no pattern of a
  later length was found is not printed. On seven equal signatures the lengths 3, 5, 8
  report a pattern of length 3 and nothing for 5 and 8, while the lengths 5, 8 alone
  report both as not found.
\<close>

theorem not_found_report_depends_on_earlier_length:
  "cyclic_patterns (replicate 7 ''A'') pattern_lengths_to_check
     = [Checking 3, Found 0 [''A'', ''A'', ''A''], Checking 5, Checking 8]
   \<and> cyclic_patterns (replicate 7 ''A'') [5, 8]
     = [Checking 5, NotFound 5, Checking 8, NotFound 8]"
  by (simp add: cyclic_patterns_def pattern_lengths_to_check_def find_pattern_def
      repetition_checks_def slice_def upt_conv_Cons eval_nat_numeral)

section \<open>Properties of the temporal aggregation\<close>

lemma length_dropna: "length (dropna col) = length (filter (\<lambda>x. x \<noteq> None) col)"
  by (induction col rule: dropna.induct) auto

lemma count_dropna: "count_list (dropna col) v = length (filter (\<lambda>x. x = Some v) col)"
  by (induction col rule: dropna.induct) auto

lemma dropna_map: "dropna (map (map_option f) col) = map f (dropna col)"
  by (induction col rule: dropna.induct) auto

lemma sum_list_sort_remdups:
  "sum_list (map f (sort (remdups xs))) = sum f (set xs)"
proof -
  have "sum f (set (sort (remdups xs))) = sum_list (map f (sort (remdups xs)))"
    by (rule sum.distinct_set_conv_list) simp
  then show ?thesis by simp
qed

lemma value_counts_total:
  "sum_list (map snd (value_counts_sort_index col)) = length (dropna col)"
proof -
  have "sum_list (map snd (value_counts_sort_index col))
        = sum_list (map (count_list (dropna col)) (sort (remdups (dropna col))))"
    by (simp add: value_counts_sort_index_def Let_def comp_def)
  also have "\<dots> = sum (count_list (dropna col)) (set (dropna col))"
    by (rule sum_list_sort_remdups)
  also have "\<dots> = length (dropna col)"
    by (rule sum_count_set) simp_all
  finally show ?thesis .
qed

lemma valid_hours: "length (dropna (map hour df)) = length (filter (\<lambda>e. timestamp e \<noteq> None) df)"
  by (simp add: length_dropna filter_map comp_def hour_def)

lemma valid_dates: "length (dropna (map date df)) = length (filter (\<lambda>e. timestamp e \<noteq> None) df)"
  by (simp add: length_dropna filter_map comp_def date_def)

lemma length_value_counts:
  "length (value_counts_sort_index col) = card (set (dropna col))"
proof -
  have "length (sort (remdups (dropna col))) = card (set (dropna col))"
    by (simp add: length_remdups_card_conv)
  then show ?thesis by (simp add: value_counts_sort_index_def Let_def)
qed

lemma sort_remdups_empty: "sort (remdups xs) = [] \<longleftrightarrow> xs = []"
proof -
  have "sort (remdups xs) = [] \<longleftrightarrow> set (sort (remdups xs)) = {}"
    by (simp only: set_empty)
  then show ?thesis by simp
qed

lemma value_counts_empty: "value_counts_sort_index col = [] \<longleftrightarrow> dropna col = []"
  by (simp add: value_counts_sort_index_def Let_def sort_remdups_empty)

text \<open>
  Claim C6. The counts of the hour histogram add up to the number of events with a
  timestamp, and so do the counts of the date histogram; the mean number of events per
  day is that number divided by the number of distinct dates, and is not a number when
  no event has a timestamp.
\<close>

theorem histogram_totals:
  "sum_list (map snd (hourly_counts df)) = length (filter (\<lambda>e. timestamp e \<noteq> None) df)
   \<and> sum_list (map snd (daily_counts df)) = length (filter (\<lambda>e. timestamp e \<noteq> None) df)
   \<and> avg_events_per_day df =
       (if filter (\<lambda>e. timestamp e \<noteq> None) df = [] then None
        else Some (of_nat (length (filter (\<lambda>e. timestamp e \<noteq> None) df))
                   / of_nat (card (set (dropna (map date df))))))"
proof -
  have e: "dropna (map date df) = [] \<longleftrightarrow> filter (\<lambda>e. timestamp e \<noteq> None) df = []"
    using valid_dates [of df] by (metis length_0_conv)
  show ?thesis
    unfolding hourly_counts_def daily_counts_def avg_events_per_day_def series_mean_def
    by (simp add: value_counts_total valid_hours valid_dates length_value_counts
        value_counts_empty e)
qed


lemma idxmax_from_spec:
  fixes best :: "'a::linorder \<times> nat"
  assumes "sorted_wrt (<) (map fst (best # xs))"
  shows "\<exists>v. (idxmax_from best xs, v) \<in> set (best # xs)
           \<and> (\<forall>p \<in> set (best # xs). snd p \<le> v \<and> (snd p = v \<longrightarrow> idxmax_from best xs \<le> fst p))"
  using assms
proof (induction xs arbitrary: best)
  case Nil
  show ?case by (intro exI [of _ "snd best"]) simp
next
  case (Cons x xs)
  from Cons.prems have bx: "fst best < fst x"
    and sx: "sorted_wrt (<) (map fst (x # xs))"
    and sb: "sorted_wrt (<) (map fst (best # xs))"
    by auto
  show ?case
  proof (cases "snd x > snd best")
    case True
    from Cons.IH [OF sx] obtain v where
      v: "(idxmax_from x xs, v) \<in> set (x # xs)"
      and m: "\<forall>p \<in> set (x # xs). snd p \<le> v \<and> (snd p = v \<longrightarrow> idxmax_from x xs \<le> fst p)"
      by blast
    from m have "snd x \<le> v" by simp
    with True have "snd best < v" by simp
    with v m True show ?thesis by (intro exI [of _ v]) auto
  next
    case False
    from Cons.IH [OF sb] obtain v where
      v: "(idxmax_from best xs, v) \<in> set (best # xs)"
      and m: "\<forall>p \<in> set (best # xs). snd p \<le> v \<and> (snd p = v \<longrightarrow> idxmax_from best xs \<le> fst p)"
      by blast
    from m have b: "snd best \<le> v" "snd best = v \<longrightarrow> idxmax_from best xs \<le> fst best" by simp_all
    with False bx have x: "snd x \<le> v" "snd x = v \<longrightarrow> idxmax_from best xs \<le> fst x" by auto
    from v m x False show ?thesis by (intro exI [of _ v]) auto
  qed
qed

lemma value_counts_keys:
  "map fst (value_counts_sort_index col) = sort (remdups (dropna col))"
  by (simp add: value_counts_sort_index_def Let_def comp_def)

lemma value_counts_set:
  "set (value_counts_sort_index col) = (\<lambda>k. (k, count_list (dropna col) k)) ` set (dropna col)"
  by (simp add: value_counts_sort_index_def Let_def)

lemma value_counts_strict_sorted:
  "sorted_wrt (<) (map fst (value_counts_sort_index col))"
  by (simp add: value_counts_keys strict_sorted_iff)

lemma idxmax_value_counts:
  assumes "dropna col \<noteq> []"
  shows "\<exists>k. idxmax (value_counts_sort_index col) = Inr k \<and> k \<in> set (dropna col)
           \<and> (\<forall>k'. count_list (dropna col) k' \<le> count_list (dropna col) k)
           \<and> (\<forall>k'. count_list (dropna col) k' = count_list (dropna col) k \<longrightarrow> k \<le> k')"
proof -
  let ?c = "count_list (dropna col)"
  from assms obtain x xs where s: "value_counts_sort_index col = x # xs"
    by (cases "value_counts_sort_index col") (simp_all add: value_counts_empty)
  define k where "k = idxmax_from x xs"
  have "sorted_wrt (<) (map fst (x # xs))"
    using value_counts_strict_sorted [of col] by (simp add: s)
  from idxmax_from_spec [OF this] obtain v where
    v: "(k, v) \<in> set (x # xs)"
    and m: "\<forall>p \<in> set (x # xs). snd p \<le> v \<and> (snd p = v \<longrightarrow> k \<le> fst p)"
    unfolding k_def by blast
  have mem: "set (x # xs) = (\<lambda>k. (k, ?c k)) ` set (dropna col)"
    using value_counts_set [of col] by (simp add: s)
  from v mem have kin: "k \<in> set (dropna col)" and vk: "v = ?c k" by auto
  from kin have "?c k \<noteq> 0" by (simp add: count_list_0_iff)
  then have pos: "0 < ?c k" by simp
  have le: "?c k' \<le> ?c k" and tie: "?c k' = ?c k \<longrightarrow> k \<le> k'" for k'
  proof -
    show "?c k' \<le> ?c k"
    proof (cases "k' \<in> set (dropna col)")
      case True
      then have "(k', ?c k') \<in> set (x # xs)" unfolding mem by blast
      with m vk show ?thesis by fastforce
    next
      case False
      then show ?thesis by (simp add: count_list_0_iff)
    qed
    show "?c k' = ?c k \<longrightarrow> k \<le> k'"
    proof (cases "k' \<in> set (dropna col)")
      case True
      then have "(k', ?c k') \<in> set (x # xs)" unfolding mem by blast
      with m vk show ?thesis by fastforce
    next
      case False
      then have "?c k' = 0" by (simp add: count_list_0_iff)
      with pos show ?thesis by simp
    qed
  qed
  have "idxmax (value_counts_sort_index col) = Inr k"
    by (simp add: idxmax_def s k_def)
  with kin le tie show ?thesis by blast
qed

lemma hour_of_less: "hour_of t < 24"
  by (simp add: hour_of_def nat_less_iff)

lemma count_hour:
  "count_list (dropna (map hour df)) h = length (filter (\<lambda>e. hour e = Some h) df)"
  by (simp add: count_dropna filter_map comp_def)

text \<open>
  Claim C8. When some event has a timestamp, the most active hour is an hour of the day
  that no hour exceeds in events, and every hour with as many events is not below it.
\<close>

theorem most_active_hour_argmax:
  assumes "filter (\<lambda>e. timestamp e \<noteq> None) df \<noteq> []"
  shows "\<exists>h. most_active_hour df = Inr h \<and> h < 24
           \<and> (\<forall>h'. length (filter (\<lambda>e. hour e = Some h') df)
                     \<le> length (filter (\<lambda>e. hour e = Some h) df))
           \<and> (\<forall>h'. length (filter (\<lambda>e. hour e = Some h') df)
                     = length (filter (\<lambda>e. hour e = Some h) df) \<longrightarrow> h \<le> h')"
proof -
  from assms have "dropna (map hour df) \<noteq> []"
    using valid_hours [of df] by (metis length_0_conv)
  from idxmax_value_counts [OF this] obtain h where
    h: "idxmax (value_counts_sort_index (map hour df)) = Inr h"
    and hin: "h \<in> set (dropna (map hour df))"
    and le: "\<forall>h'. count_list (dropna (map hour df)) h' \<le> count_list (dropna (map hour df)) h"
    and tie: "\<forall>h'. count_list (dropna (map hour df)) h' = count_list (dropna (map hour df)) h
               \<longrightarrow> h \<le> h'"
    by blast
  have "map hour df = map (map_option hour_of) (map timestamp df)"
    by (simp add: hour_def)
  then have "dropna (map hour df) = map hour_of (dropna (map timestamp df))"
    by (simp only: dropna_map)
  with hin have "h < 24" by (auto simp: hour_of_less)
  with h le tie show ?thesis
    by (simp add: most_active_hour_def hourly_counts_def count_hour)
qed


lemma pivot_keys_count:
  "count_list (pivot_keys df) (d, h)
     = length (filter (\<lambda>e. date e = Some d \<and> hour e = Some h) df)"
proof (induction df)
  case Nil
  show ?case by (simp add: pivot_keys_def)
next
  case (Cons e df)
  then show ?case
    by (cases "timestamp e") (auto simp: pivot_keys_def date_def hour_def)
qed

lemma length_pivot_keys:
  "length (pivot_keys df) = length (filter (\<lambda>e. timestamp e \<noteq> None) df)"
  by (simp add: pivot_keys_def length_dropna filter_map comp_def)

lemma grid_total:
  fixes keys :: "('a::linorder \<times> 'b::linorder) list"
  shows "sum_list (map (\<lambda>d. sum_list (map (\<lambda>h. count_list keys (d, h))
                                     (sort (remdups (map snd keys)))))
                   (sort (remdups (map fst keys))))
         = length keys"
proof -
  let ?D = "set (map fst keys)" and ?H = "set (map snd keys)"
  have "sum_list (map (\<lambda>d. sum_list (map (\<lambda>h. count_list keys (d, h))
                                     (sort (remdups (map snd keys)))))
                   (sort (remdups (map fst keys))))
        = (\<Sum>d \<in> ?D. \<Sum>h \<in> ?H. count_list keys (d, h))"
    by (simp only: sum_list_sort_remdups)
  also have "\<dots> = (\<Sum>p \<in> ?D \<times> ?H. count_list keys p)"
    by (simp add: sum.cartesian_product)
  also have "\<dots> = length keys"
  proof (rule sum_count_set)
    show "set keys \<subseteq> ?D \<times> ?H" by force
    show "finite (?D \<times> ?H)" by simp
  qed
  finally show ?thesis .
qed

text \<open>
  Claim C7. The labels of the date by hour table are strictly ascending, the hours among
  0 to 23; each cell is the number of events of its date and hour; a date and hour of
  which one is not a label has no event, so the table read with 0 outside its labels is
  the dense grid; and the cells add up to the number of events with a timestamp.
\<close>

theorem heatmap_cells:
  "sorted_wrt (<) (pt_index (heatmap_data df))
   \<and> sorted_wrt (<) (pt_columns (heatmap_data df))
   \<and> (\<forall>h \<in> set (pt_columns (heatmap_data df)). h < 24)
   \<and> length (pt_values (heatmap_data df)) = length (pt_index (heatmap_data df))
   \<and> (\<forall>i < length (pt_index (heatmap_data df)). \<forall>j < length (pt_columns (heatmap_data df)).
         length (pt_values (heatmap_data df) ! i) = length (pt_columns (heatmap_data df))
         \<and> pt_values (heatmap_data df) ! i ! j
             = length (filter (\<lambda>e. date e = Some (pt_index (heatmap_data df) ! i)
                                  \<and> hour e = Some (pt_columns (heatmap_data df) ! j)) df))
   \<and> (\<forall>d h. d \<notin> set (pt_index (heatmap_data df)) \<or> h \<notin> set (pt_columns (heatmap_data df))
         \<longrightarrow> length (filter (\<lambda>e. date e = Some d \<and> hour e = Some h) df) = 0)
   \<and> sum_list (map sum_list (pt_values (heatmap_data df)))
       = length (filter (\<lambda>e. timestamp e \<noteq> None) df)"
proof -
  let ?keys = "pivot_keys df"
  have idx: "pt_index (heatmap_data df) = sort (remdups (map fst ?keys))"
    and cols: "pt_columns (heatmap_data df) = sort (remdups (map snd ?keys))"
    and vals: "pt_values (heatmap_data df)
               = map (\<lambda>d. map (\<lambda>h. count_list ?keys (d, h)) (sort (remdups (map snd ?keys))))
                   (sort (remdups (map fst ?keys)))"
    by (simp_all add: heatmap_data_def Let_def)
  have 1: "sorted_wrt (<) (pt_index (heatmap_data df))"
    by (simp add: idx strict_sorted_iff)
  have 2: "sorted_wrt (<) (pt_columns (heatmap_data df))"
    by (simp add: cols strict_sorted_iff)
  have 3: "\<forall>h \<in> set (pt_columns (heatmap_data df)). h < 24"
    by (auto simp: cols pivot_keys_def hour_of_less)
  have 4: "length (pt_values (heatmap_data df)) = length (pt_index (heatmap_data df))"
    by (simp add: idx vals)
  have 5: "\<forall>i < length (pt_index (heatmap_data df)). \<forall>j < length (pt_columns (heatmap_data df)).
         length (pt_values (heatmap_data df) ! i) = length (pt_columns (heatmap_data df))
         \<and> pt_values (heatmap_data df) ! i ! j
             = length (filter (\<lambda>e. date e = Some (pt_index (heatmap_data df) ! i)
                                  \<and> hour e = Some (pt_columns (heatmap_data df) ! j)) df)"
    unfolding idx cols vals by (simp add: pivot_keys_count)
  have 6: "length (filter (\<lambda>e. date e = Some d \<and> hour e = Some h) df) = 0"
    if "d \<notin> set (pt_index (heatmap_data df)) \<or> h \<notin> set (pt_columns (heatmap_data df))" for d h
  proof -
    from that have "(d, h) \<notin> set ?keys" unfolding idx cols by force
    then have "count_list ?keys (d, h) = 0" by (simp add: count_list_0_iff)
    then show ?thesis by (simp only: pivot_keys_count)
  qed
  have 7: "sum_list (map sum_list (pt_values (heatmap_data df)))
       = length (filter (\<lambda>e. timestamp e \<noteq> None) df)"
    unfolding vals by (simp add: comp_def grid_total length_pivot_keys)
  from 1 2 3 4 5 6 7 show ?thesis by blast
qed


section \<open>The aggregates on a frame of four events\<close>

theorem histogram_totals_witness:
  "sum_list (map snd (hourly_counts
     [\<lparr>signature = ''A'', timestamp = Some 3600\<rparr>,
      \<lparr>signature = ''B'', timestamp = None\<rparr>,
      \<lparr>signature = ''A'', timestamp = Some 90000\<rparr>,
      \<lparr>signature = ''C'', timestamp = Some 3700\<rparr>])) = 3
   \<and> sum_list (map snd (daily_counts
     [\<lparr>signature = ''A'', timestamp = Some 3600\<rparr>,
      \<lparr>signature = ''B'', timestamp = None\<rparr>,
      \<lparr>signature = ''A'', timestamp = Some 90000\<rparr>,
      \<lparr>signature = ''C'', timestamp = Some 3700\<rparr>])) = 3
   \<and> avg_events_per_day
     [\<lparr>signature = ''A'', timestamp = Some 3600\<rparr>,
      \<lparr>signature = ''B'', timestamp = None\<rparr>,
      \<lparr>signature = ''A'', timestamp = Some 90000\<rparr>,
      \<lparr>signature = ''C'', timestamp = Some 3700\<rparr>] = Some (3 / 2)"
proof -
  have n: "filter (\<lambda>e. timestamp e \<noteq> None)
     [\<lparr>signature = ''A'', timestamp = Some 3600\<rparr>,
      \<lparr>signature = ''B'', timestamp = None\<rparr>,
      \<lparr>signature = ''A'', timestamp = Some 90000\<rparr>,
      \<lparr>signature = ''C'', timestamp = Some 3700\<rparr>]
     = [\<lparr>signature = ''A'', timestamp = Some 3600\<rparr>,
        \<lparr>signature = ''A'', timestamp = Some 90000\<rparr>,
        \<lparr>signature = ''C'', timestamp = Some 3700\<rparr>]"
    by simp
  have d: "card (set (dropna (map date
     [\<lparr>signature = ''A'', timestamp = Some 3600\<rparr>,
      \<lparr>signature = ''B'', timestamp = None\<rparr>,
      \<lparr>signature = ''A'', timestamp = Some 90000\<rparr>,
      \<lparr>signature = ''C'', timestamp = Some 3700\<rparr>]))) = 2"
    by (simp add: date_def date_of_def card_insert_if)
  from histogram_totals [of "[\<lparr>signature = ''A'', timestamp = Some 3600\<rparr>,
      \<lparr>signature = ''B'', timestamp = None\<rparr>,
      \<lparr>signature = ''A'', timestamp = Some 90000\<rparr>,
      \<lparr>signature = ''C'', timestamp = Some 3700\<rparr>]"]
  show ?thesis unfolding n d by simp
qed

theorem most_active_hour_argmax_witness:
  "filter (\<lambda>e. timestamp e \<noteq> None)
     [\<lparr>signature = ''A'', timestamp = Some 3600\<rparr>,
      \<lparr>signature = ''B'', timestamp = None\<rparr>,
      \<lparr>signature = ''A'', timestamp = Some 90000\<rparr>,
      \<lparr>signature = ''C'', timestamp = Some 3700\<rparr>] \<noteq> []
   \<and> (\<exists>h. most_active_hour
     [\<lparr>signature = ''A'', timestamp = Some 3600\<rparr>,
      \<lparr>signature = ''B'', timestamp = None\<rparr>,
      \<lparr>signature = ''A'', timestamp = Some 90000\<rparr>,
      \<lparr>signature = ''C'', timestamp = Some 3700\<rparr>] = Inr h \<and> h < 24
       \<and> (\<forall>h'. length (filter (\<lambda>e. hour e = Some h')
     [\<lparr>signature = ''A'', timestamp = Some 3600\<rparr>,
      \<lparr>signature = ''B'', timestamp = None\<rparr>,
      \<lparr>signature = ''A'', timestamp = Some 90000\<rparr>,
      \<lparr>signature = ''C'', timestamp = Some 3700\<rparr>])
            \<le> length (filter (\<lambda>e. hour e = Some h)
     [\<lparr>signature = ''A'', timestamp = Some 3600\<rparr>,
      \<lparr>signature = ''B'', timestamp = None\<rparr>,
      \<lparr>signature = ''A'', timestamp = Some 90000\<rparr>,
      \<lparr>signature = ''C'', timestamp = Some 3700\<rparr>]))
       \<and> (\<forall>h'. length (filter (\<lambda>e. hour e = Some h')
     [\<lparr>signature = ''A'', timestamp = Some 3600\<rparr>,
      \<lparr>signature = ''B'', timestamp = None\<rparr>,
      \<lparr>signature = ''A'', timestamp = Some 90000\<rparr>,
      \<lparr>signature = ''C'', timestamp = Some 3700\<rparr>])
            = length (filter (\<lambda>e. hour e = Some h)
     [\<lparr>signature = ''A'', timestamp = Some 3600\<rparr>,
      \<lparr>signature = ''B'', timestamp = None\<rparr>,
      \<lparr>signature = ''A'', timestamp = Some 90000\<rparr>,
      \<lparr>signature = ''C'', timestamp = Some 3700\<rparr>]) \<longrightarrow> h \<le> h'))"
proof -
  have n: "filter (\<lambda>e. timestamp e \<noteq> None)
     [\<lparr>signature = ''A'', timestamp = Some 3600\<rparr>,
      \<lparr>signature = ''B'', timestamp = None\<rparr>,
      \<lparr>signature = ''A'', timestamp = Some 90000\<rparr>,
      \<lparr>signature = ''C'', timestamp = Some 3700\<rparr>] \<noteq> []"
    by simp
  from n most_active_hour_argmax [OF n] show ?thesis by (rule conjI)
qed

theorem heatmap_cells_witness:
  "sum_list (map sum_list (pt_values (heatmap_data
     [\<lparr>signature = ''A'', timestamp = Some 3600\<rparr>,
      \<lparr>signature = ''B'', timestamp = None\<rparr>,
      \<lparr>signature = ''A'', timestamp = Some 90000\<rparr>,
      \<lparr>signature = ''C'', timestamp = Some 3700\<rparr>]))) = 3
   \<and> pt_index (heatmap_data
     [\<lparr>signature = ''A'', timestamp = Some 3600\<rparr>,
      \<lparr>signature = ''B'', timestamp = None\<rparr>,
      \<lparr>signature = ''A'', timestamp = Some 90000\<rparr>,
      \<lparr>signature = ''C'', timestamp = Some 3700\<rparr>]) = [0, 1]
   \<and> pt_columns (heatmap_data
     [\<lparr>signature = ''A'', timestamp = Some 3600\<rparr>,
      \<lparr>signature = ''B'', timestamp = None\<rparr>,
      \<lparr>signature = ''A'', timestamp = Some 90000\<rparr>,
      \<lparr>signature = ''C'', timestamp = Some 3700\<rparr>]) = [1]
   \<and> pt_values (heatmap_data
     [\<lparr>signature = ''A'', timestamp = Some 3600\<rparr>,
      \<lparr>signature = ''B'', timestamp = None\<rparr>,
      \<lparr>signature = ''A'', timestamp = Some 90000\<rparr>,
      \<lparr>signature = ''C'', timestamp = Some 3700\<rparr>]) = [[2], [1]]"
proof -
  have n: "length (filter (\<lambda>e. timestamp e \<noteq> None)
     [\<lparr>signature = ''A'', timestamp = Some 3600\<rparr>,
      \<lparr>signature = ''B'', timestamp = None\<rparr>,
      \<lparr>signature = ''A'', timestamp = Some 90000\<rparr>,
      \<lparr>signature = ''C'', timestamp = Some 3700\<rparr>]) = 3"
    by simp
  have "sum_list (map sum_list (pt_values (heatmap_data
     [\<lparr>signature = ''A'', timestamp = Some 3600\<rparr>,
      \<lparr>signature = ''B'', timestamp = None\<rparr>,
      \<lparr>signature = ''A'', timestamp = Some 90000\<rparr>,
      \<lparr>signature = ''C'', timestamp = Some 3700\<rparr>]))) = 3"
    using heatmap_cells [of "[\<lparr>signature = ''A'', timestamp = Some 3600\<rparr>,
      \<lparr>signature = ''B'', timestamp = None\<rparr>,
      \<lparr>signature = ''A'', timestamp = Some 90000\<rparr>,
      \<lparr>signature = ''C'', timestamp = Some 3700\<rparr>]"] unfolding n by blast
  moreover have "heatmap_data
     [\<lparr>signature = ''A'', timestamp = Some 3600\<rparr>,
      \<lparr>signature = ''B'', timestamp = None\<rparr>,
      \<lparr>signature = ''A'', timestamp = Some 90000\<rparr>,
      \<lparr>signature = ''C'', timestamp = Some 3700\<rparr>] = \<lparr>pt_index = [0, 1], pt_columns = [1], pt_values = [[2], [1]]\<rparr>"
    by (simp add: heatmap_data_def pivot_keys_def hour_of_def date_of_def)
  ultimately show ?thesis by simp
qed

section \<open>Empty and timestamp-free input\<close>

text \<open>
  Claim C9. On a frame whose only event has no valid timestamp the temporal analysis
  raises ValueError, which nothing catches, and the summary raises ValueError at the
  earliest timestamp, so that the export writes no summary. On the frame of the empty
  event list, which has no column, the summary raises KeyError at the number of distinct
  signatures, and again no summary is written: no field is reported as unavailable.
\<close>

theorem absent_data_raises:
  "analyze_temporal_patterns
     \<lparr>has_signature = True, has_timestamp = True,
      events = [\<lparr>signature = ''ICMP Ping'', timestamp = None\<rparr>]\<rparr> = Inl ValueError
   \<and> summary_values
     \<lparr>has_signature = True, has_timestamp = True,
      events = [\<lparr>signature = ''ICMP Ping'', timestamp = None\<rparr>]\<rparr> = Inl ValueError
   \<and> export_results
     \<lparr>has_signature = True, has_timestamp = True,
      events = [\<lparr>signature = ''ICMP Ping'', timestamp = None\<rparr>]\<rparr> = None
   \<and> summary_values \<lparr>has_signature = False, has_timestamp = False, events = []\<rparr>
     = Inl KeyError
   \<and> export_results \<lparr>has_signature = False, has_timestamp = False, events = []\<rparr> = None"
  by (simp add: analyze_temporal_patterns_def most_active_hour_def hourly_counts_def
      value_counts_sort_index_def idxmax_def hour_def export_results_def summary_values_def
      nunique_def col_min_def strftime_def)

end
